theory Spec2Isabelle
  imports Complex_Main "HOL-Library.AList" "HOL-Library.Sublist"
begin

section \<open>Strings and numbers of the host language\<close>

text \<open>
  Source strings are modelled as \<open>string\<close> (lists of 8-bit characters), numbers that
  hold rows, columns and lengths as \<open>int\<close> or \<open>nat\<close>, and scores as \<open>real\<close>: every
  score the indexer computes is a small multiple of 1/8, which the host's
  double-precision numbers represent exactly.
\<close>

text \<open>\<open>String.prototype.toLowerCase\<close>, on the ASCII letters.\<close>

definition toLowerChar :: "char \<Rightarrow> char" where
  "toLowerChar c =
     (let n = (of_char c :: nat) in if 65 \<le> n \<and> n \<le> 90 then char_of (n + 32) else c)"

definition toLowerCase :: "string \<Rightarrow> string" where
  "toLowerCase s = map toLowerChar s"

text \<open>\<open>s.includes(t)\<close>: \<open>t\<close> occurs in \<open>s\<close> as a contiguous substring.\<close>

fun str_includes :: "string \<Rightarrow> string \<Rightarrow> bool" where
  "str_includes [] t = (t = [])"
| "str_includes (c # cs) t = (prefix t (c # cs) \<or> str_includes cs t)"

text \<open>The white space class \<open>\s\<close> of regular expressions, on the ASCII characters.\<close>

definition isWhiteSpace :: "char \<Rightarrow> bool" where
  "isWhiteSpace c = (of_char c \<in> {9, 10, 11, 12, 13, 32 :: nat})"

text \<open>\<open>String.prototype.trim\<close>.\<close>

definition trim :: "string \<Rightarrow> string" where
  "trim s = rev (dropWhile isWhiteSpace (rev (dropWhile isWhiteSpace s)))"

text \<open>
  \<open>s.split(/\s+/)\<close>: the pieces of \<open>s\<close> between maximal runs of white space. The
  pieces before a leading run and after a trailing run are empty strings, and the
  empty string splits into one empty piece. \<open>cur\<close> is the piece being read.
\<close>

function splitWhiteSpace :: "string \<Rightarrow> string \<Rightarrow> string list" where
  "splitWhiteSpace cur [] = [cur]"
| "splitWhiteSpace cur (c # cs) =
     (if isWhiteSpace c then cur # splitWhiteSpace [] (dropWhile isWhiteSpace cs)
      else splitWhiteSpace (cur @ [c]) cs)"
  by pat_completeness auto
termination
  by (relation "measure (\<lambda>(cur, s). length s)")
     (auto simp: length_dropWhile_le less_Suc_eq_le)

text \<open>Decimal rendering of a non-negative number inside a template literal.\<close>

fun string_of_nat :: "nat \<Rightarrow> string" where
  "string_of_nat n =
     (if n < 10 then [char_of (48 + n)]
      else string_of_nat (n div 10) @ [char_of (48 + n mod 10)])"

section \<open>The data model of \<open>codeIndexer.ts\<close>\<close>

text \<open>
  \<open>interface CodeNode\<close>. The \<open>parent\<close> back-reference is not part of the model: no
  operation of the indexer reads it. \<open>name\<close> is \<open>None\<close> where the source leaves the
  optional field undefined.
\<close>

datatype CodeNode = CodeNode
  (node_id: string) (type: string) (name: "string option") (node_text: string)
  (startLine: int) (endLine: int) (startCol: int) (endCol: int)
  (filePath: string) (children: "CodeNode list")

text \<open>\<open>interface QueryResult\<close>.\<close>

record QueryResult =
  node :: CodeNode
  score :: real
  matches :: "string list"

section \<open>The external syntax tree and the node materializer\<close>

text \<open>
  A node of the external parser's tree, as far as \<open>convertToCodeNode\<close> reads it:
  \<open>type\<close>, \<open>text\<close>, \<open>startPosition\<close>, \<open>endPosition\<close>, the text of
  \<open>childForFieldName("name")\<close> (\<open>None\<close> when there is no such child) and the children.
\<close>

datatype SyntaxNode = SyntaxNode
  (ts_type: string) (ts_text: string)
  (ts_startRow: nat) (ts_startCol: nat) (ts_endRow: nat) (ts_endCol: nat)
  (ts_nameField: "string option") (ts_children: "SyntaxNode list")

definition namedTypes :: "string list" where
  "namedTypes = [''function_declaration'', ''method_definition'', ''class_declaration'',
     ''variable_declaration'', ''interface_declaration'', ''type_alias'',
     ''property_signature'']"

fun convertToCodeNode :: "SyntaxNode \<Rightarrow> string \<Rightarrow> string \<Rightarrow> CodeNode" where
  "convertToCodeNode (SyntaxNode ty tx sr sc er ec nameNode chs) file fileContent =
     CodeNode
       (file @ '':'' @ string_of_nat sr @ '':'' @ string_of_nat sc)
       ty
       (if ty \<in> set namedTypes then
          (case nameNode of
             Some t \<Rightarrow> Some t
           | None \<Rightarrow>
               (case find (\<lambda>child. ts_type child = ''property_identifier''
                                 \<or> ts_type child = ''type_identifier'') chs of
                  Some child \<Rightarrow> Some (ts_text child)
                | None \<Rightarrow> None))
        else None)
       tx (int sr) (int er) (int sc) (int ec) file
       (map (\<lambda>child. convertToCodeNode child file fileContent)
          (filter (\<lambda>child. ts_type child \<noteq> ''comment'') chs))"

section \<open>The structure index\<close>

text \<open>
  A parser of one language maps a file's content to a tree, or throws (\<open>None\<close>).
  \<open>LanguageParser\<close> is the table of parsers by file extension.
\<close>

type_synonym Parser = "string \<Rightarrow> SyntaxNode option"
type_synonym LanguageParser = "string \<Rightarrow> Parser option"

text \<open>
  The fields of \<open>class CodeIndexer\<close>. Both indexes are \<open>Map\<close>s of the host language,
  which iterate in insertion order: they are association lists, \<open>Map.set\<close> is
  \<open>AList.update\<close> (in place for a known key, at the end for a new one), \<open>Map.delete\<close>
  is \<open>AList.delete\<close> and \<open>Map.get\<close> is \<open>map_of\<close>.
\<close>

record CodeIndexer =
  parsers :: "LanguageParser option"
  fileIndex :: "(string \<times> CodeNode) list"
  nodeIndex :: "(string \<times> CodeNode) list"

text \<open>
  What the indexer asks of its host: \<open>path.extname\<close> and \<open>fs.readFileSync\<close> (\<open>None\<close>
  when reading throws).
\<close>

record Host =
  extname :: "string \<Rightarrow> string"
  readFileSync :: "string \<Rightarrow> string option"

datatype error = NotInitialized | ParsersNotLoaded | IndexingFailed

text \<open>
  A method call yields the exception it threw, if any, and the indexer as the call
  left it.
\<close>

type_synonym outcome = "error option \<times> CodeIndexer"

definition newCodeIndexer :: CodeIndexer where
  "newCodeIndexer = \<lparr>parsers = None, fileIndex = [], nodeIndex = []\<rparr>"

fun indexNode :: "CodeNode \<Rightarrow> (string \<times> CodeNode) list \<Rightarrow> (string \<times> CodeNode) list"
  and indexNodes :: "CodeNode list \<Rightarrow> (string \<times> CodeNode) list \<Rightarrow> (string \<times> CodeNode) list"
where
  "indexNode (CodeNode i ty nm tx sl el sc ec fp chs) idx =
     indexNodes chs (AList.update i (CodeNode i ty nm tx sl el sc ec fp chs) idx)"
| "indexNodes [] idx = idx"
| "indexNodes (child # rest) idx = indexNodes rest (indexNode child idx)"

fun removeNodeFromIndex :: "CodeNode \<Rightarrow> (string \<times> CodeNode) list \<Rightarrow> (string \<times> CodeNode) list"
  and removeNodesFromIndex :: "CodeNode list \<Rightarrow> (string \<times> CodeNode) list \<Rightarrow> (string \<times> CodeNode) list"
where
  "removeNodeFromIndex (CodeNode i ty nm tx sl el sc ec fp chs) idx =
     removeNodesFromIndex chs (AList.delete i idx)"
| "removeNodesFromIndex [] idx = idx"
| "removeNodesFromIndex (child # rest) idx =
     removeNodesFromIndex rest (removeNodeFromIndex child idx)"

definition indexFile :: "Host \<Rightarrow> string \<Rightarrow> CodeIndexer \<Rightarrow> outcome" where
  "indexFile h file st =
     (case parsers st of
        None \<Rightarrow> (Some NotInitialized, st)
      | Some ps \<Rightarrow>
          (let ext = drop 1 (toLowerCase (extname h file)) in
           case ps ext of
             None \<Rightarrow> (None, st)
           | Some parser \<Rightarrow>
               (case readFileSync h file of
                  None \<Rightarrow> (Some IndexingFailed, st)
                | Some fileContent \<Rightarrow>
                    (case parser fileContent of
                       None \<Rightarrow> (Some IndexingFailed, st)
                     | Some tree \<Rightarrow>
                         (let rootNode = convertToCodeNode tree file fileContent in
                          (None, st\<lparr>fileIndex := AList.update file rootNode (fileIndex st),
                                    nodeIndex := indexNode rootNode (nodeIndex st)\<rparr>))))))"

definition updateFile :: "Host \<Rightarrow> string \<Rightarrow> CodeIndexer \<Rightarrow> outcome" where
  "updateFile h file st =
     (let st' = (case map_of (fileIndex st) file of
                   Some oldRootNode \<Rightarrow>
                     st\<lparr>nodeIndex := removeNodeFromIndex oldRootNode (nodeIndex st)\<rparr>
                 | None \<Rightarrow> st)
      in indexFile h file st')"

text \<open>
  The loop of \<open>initialize\<close> over the files found: the \<open>catch\<close> block logs the error of
  \<open>indexFile\<close> and throws it again, which ends the loop.
\<close>

fun indexFiles :: "Host \<Rightarrow> string list \<Rightarrow> CodeIndexer \<Rightarrow> outcome" where
  "indexFiles h [] st = (None, st)"
| "indexFiles h (file # rest) st =
     (case indexFile h file st of
        (Some e, st') \<Rightarrow> (Some e, st')
      | (None, st') \<Rightarrow> indexFiles h rest st')"

text \<open>
  \<open>initialize\<close>, given the files that \<open>getAllFiles\<close> found and what
  \<open>loadRequiredLanguageParsers\<close> returned (\<open>None\<close> when it threw).
\<close>

definition initialize :: "Host \<Rightarrow> string list \<Rightarrow> LanguageParser option \<Rightarrow> CodeIndexer \<Rightarrow> outcome" where
  "initialize h allFiles loaded st =
     (case loaded of
        None \<Rightarrow> (Some ParsersNotLoaded, st)
      | Some ps \<Rightarrow> indexFiles h allFiles (st\<lparr>parsers := Some ps\<rparr>))"

section \<open>Lookups\<close>

definition getNodeText :: "CodeIndexer \<Rightarrow> string \<Rightarrow> string option" where
  "getNodeText st nodeId =
     (case map_of (nodeIndex st) nodeId of None \<Rightarrow> None | Some n \<Rightarrow> Some (node_text n))"

record NodePosition =
  pos_filePath :: string
  pos_startLine :: int
  pos_startCol :: int
  pos_endLine :: int
  pos_endCol :: int

definition getNodePosition :: "CodeIndexer \<Rightarrow> string \<Rightarrow> NodePosition option" where
  "getNodePosition st nodeId =
     (case map_of (nodeIndex st) nodeId of
        None \<Rightarrow> None
      | Some n \<Rightarrow> Some \<lparr>pos_filePath = filePath n, pos_startLine = startLine n,
                       pos_startCol = startCol n, pos_endLine = endLine n,
                       pos_endCol = endCol n\<rparr>)"

text \<open>The range test at the head of \<open>findNodeAtPosition\<close>.\<close>

definition outsideRange :: "CodeNode \<Rightarrow> int \<Rightarrow> int \<Rightarrow> bool" where
  "outsideRange n line column =
     (line < startLine n \<or> (line = startLine n \<and> column < startCol n)
      \<or> line > endLine n \<or> (line = endLine n \<and> column > endCol n))"

fun findNodeAtPosition :: "CodeNode \<Rightarrow> int \<Rightarrow> int \<Rightarrow> CodeNode option"
  and findInChildren :: "CodeNode list \<Rightarrow> int \<Rightarrow> int \<Rightarrow> CodeNode option"
where
  "findNodeAtPosition (CodeNode i ty nm tx sl el sc ec fp chs) line column =
     (if outsideRange (CodeNode i ty nm tx sl el sc ec fp chs) line column then None
      else (case findInChildren chs line column of
              Some childResult \<Rightarrow> Some childResult
            | None \<Rightarrow> Some (CodeNode i ty nm tx sl el sc ec fp chs)))"
| "findInChildren [] line column = None"
| "findInChildren (child # rest) line column =
     (case findNodeAtPosition child line column of
        Some childResult \<Rightarrow> Some childResult
      | None \<Rightarrow> findInChildren rest line column)"

definition getNodeAtPosition :: "CodeIndexer \<Rightarrow> string \<Rightarrow> int \<Rightarrow> int \<Rightarrow> CodeNode option" where
  "getNodeAtPosition st file line column =
     (case map_of (fileIndex st) file of
        None \<Rightarrow> None
      | Some rootNode \<Rightarrow> findNodeAtPosition rootNode line column)"

section \<open>Scoring\<close>

text \<open>
  The test \<open>if (node.name) { matchesName = matchingTerms.some(...) }\<close> of
  \<open>calculateScore\<close>: an undefined name and an empty name are both falsy.
\<close>

definition matchesName :: "CodeNode \<Rightarrow> string list \<Rightarrow> bool" where
  "matchesName n terms =
     (case name n of
        None \<Rightarrow> False
      | Some nm \<Rightarrow> nm \<noteq> [] \<and> list_ex (\<lambda>term. str_includes (toLowerCase nm) term) terms)"

definition calculateScore :: "CodeNode \<Rightarrow> string list \<Rightarrow> real" where
  "calculateScore n matchingTerms =
     (let score = real (length matchingTerms);
          score = (if type n \<in> {''function_declaration'', ''method_definition'',
                                 ''class_declaration''}
                   then score * 2 else score);
          lines = endLine n - startLine n + 1;
          score = (if lines \<le> 30 \<and> lines \<ge> 3 then score * 1.5 else score);
          score = (if matchesName n matchingTerms then score * 3 else score)
      in score)"

text \<open>\<open>calculateSpecialTypeScore\<close>, the score of the pass for interfaces and types.\<close>

definition calculateSpecialTypeScore :: "CodeNode \<Rightarrow> string list \<Rightarrow> real" where
  "calculateSpecialTypeScore n queryTerms =
     (let score = 1;
          nodeText = toLowerCase (node_text n);
          matchingTerms = filter (\<lambda>term. str_includes nodeText term) queryTerms;
          score = score + real (length matchingTerms) * 0.5;
          score = (if matchesName n queryTerms then score * 2 else score);
          propertyMatches =
            length (filter (\<lambda>child. type child = ''property_signature''
                                     \<and> matchesName child queryTerms) (children n));
          score = score + real propertyMatches * 0.75
      in score)"

section \<open>The search engine\<close>

text \<open>\<open>node.name?.toLowerCase() || ""\<close>.\<close>

definition lowerName :: "CodeNode \<Rightarrow> string" where
  "lowerName n = (case name n of None \<Rightarrow> [] | Some nm \<Rightarrow> toLowerCase nm)"

text \<open>
  The three loops of \<open>search\<close> in \<open>src/codeIndexer.ts\<close> over \<open>nodeIndex.values()\<close>.
  \<open>results\<close> is the array being filled and \<open>addedNodes\<close> the map of the ids the
  first loop has pushed; the second and the third loop read \<open>addedNodes\<close> and never
  write it.
\<close>

fun firstPass :: "string \<Rightarrow> string list \<Rightarrow> CodeNode list \<Rightarrow> QueryResult list
    \<Rightarrow> (string \<rightharpoonup> bool) \<Rightarrow> QueryResult list \<times> (string \<rightharpoonup> bool)" where
  "firstPass searchQueryLower queryTerms [] results addedNodes = (results, addedNodes)"
| "firstPass searchQueryLower queryTerms (n # ns) results addedNodes =
     (if str_includes (toLowerCase (node_text n)) searchQueryLower
         \<or> str_includes (toLowerCase (type n)) searchQueryLower
         \<or> str_includes (lowerName n) searchQueryLower
      then
        (let score = calculateScore n queryTerms in
         if score > 0 \<and> addedNodes (node_id n) = None
         then firstPass searchQueryLower queryTerms ns
                (results @ [\<lparr>node = n, score = score * 2, matches = [searchQueryLower]\<rparr>])
                (addedNodes(node_id n \<mapsto> True))
         else firstPass searchQueryLower queryTerms ns results addedNodes)
      else firstPass searchQueryLower queryTerms ns results addedNodes)"

fun secondPass :: "string list \<Rightarrow> (string \<rightharpoonup> bool) \<Rightarrow> CodeNode list \<Rightarrow> QueryResult list
    \<Rightarrow> QueryResult list" where
  "secondPass queryTerms addedNodes [] results = results"
| "secondPass queryTerms addedNodes (n # ns) results =
     (if addedNodes (node_id n) \<noteq> None then secondPass queryTerms addedNodes ns results
      else
        (let matchingTerms =
               filter (\<lambda>term. str_includes (toLowerCase (node_text n)) term
                              \<or> str_includes (toLowerCase (type n)) term
                              \<or> str_includes (lowerName n) term) queryTerms
         in if length matchingTerms > 0
            then (let score = calculateScore n matchingTerms in
                  if score > 0
                  then secondPass queryTerms addedNodes ns
                         (results @ [\<lparr>node = n, score = score, matches = matchingTerms\<rparr>])
                  else secondPass queryTerms addedNodes ns results)
            else secondPass queryTerms addedNodes ns results))"

fun thirdPass :: "string list \<Rightarrow> (string \<rightharpoonup> bool) \<Rightarrow> CodeNode list \<Rightarrow> QueryResult list
    \<Rightarrow> QueryResult list" where
  "thirdPass queryTerms addedNodes [] results = results"
| "thirdPass queryTerms addedNodes (n # ns) results =
     (if addedNodes (node_id n) \<noteq> None then thirdPass queryTerms addedNodes ns results
      else if type n = ''interface_declaration'' \<or> type n = ''type_alias''
      then (let score = calculateSpecialTypeScore n queryTerms in
            if score > 0
            then thirdPass queryTerms addedNodes ns
                   (results @ [\<lparr>node = n, score = score * 1.5, matches = [''interface'']\<rparr>])
            else thirdPass queryTerms addedNodes ns results)
      else thirdPass queryTerms addedNodes ns results)"

text \<open>
  \<open>results.sort((a, b) => b.score - a.score)\<close>: the host's sort is stable, and so
  is \<open>sort_key\<close>; descending scores are ascending negated scores.
\<close>

definition sortByScore :: "QueryResult list \<Rightarrow> QueryResult list" where
  "sortByScore results = sort_key (\<lambda>r. - score r) results"

text \<open>The results of the three loops, in the order of encounter.\<close>

definition searchCandidates :: "CodeIndexer \<Rightarrow> string \<Rightarrow> QueryResult list" where
  "searchCandidates st query =
     (let searchQueryLower = trim (toLowerCase query);
          queryTerms = splitWhiteSpace [] searchQueryLower;
          nodes = map snd (nodeIndex st);
          (results, addedNodes) = firstPass searchQueryLower queryTerms nodes [] Map.empty;
          results = secondPass queryTerms addedNodes nodes results;
          results = (if str_includes searchQueryLower ''interface''
                        \<or> str_includes searchQueryLower ''type''
                     then thirdPass queryTerms addedNodes nodes results
                     else results)
      in results)"

definition search :: "CodeIndexer \<Rightarrow> string \<Rightarrow> QueryResult list" where
  "search st query = sortByScore (searchCandidates st query)"

text \<open>
  The older single-loop \<open>search\<close>, kept in the repository beside the three-loop one:
  it does not trim the query, looks at the node's text only, and skips nodes whose
  text is shorter than 10 characters.
\<close>

fun singlePass :: "string list \<Rightarrow> CodeNode list \<Rightarrow> QueryResult list \<Rightarrow> QueryResult list" where
  "singlePass queryTerms [] results = results"
| "singlePass queryTerms (n # ns) results =
     (if length (node_text n) < 10 then singlePass queryTerms ns results
      else
        (let matchingTerms =
               filter (\<lambda>term. str_includes (toLowerCase (node_text n)) term) queryTerms
         in if length matchingTerms > 0
            then (let score = calculateScore n matchingTerms in
                  if score > 0
                  then singlePass queryTerms ns
                         (results @ [\<lparr>node = n, score = score, matches = matchingTerms\<rparr>])
                  else singlePass queryTerms ns results)
            else singlePass queryTerms ns results))"

definition searchSinglePass :: "CodeIndexer \<Rightarrow> string \<Rightarrow> QueryResult list" where
  "searchSinglePass st query =
     sortByScore (singlePass (splitWhiteSpace [] (toLowerCase query))
                    (map snd (nodeIndex st)) [])"

section \<open>The definition digest\<close>

text \<open>
  A capture of the external query engine, as far as \<open>parseFile\<close> of
  \<open>tree-sitter/index.ts\<close> reads it: its label \<open>name\<close> and the rows of its node.
\<close>

record Capture =
  cap_name :: string
  cap_startRow :: nat
  cap_endRow :: nat

text \<open>
  What the loop appends to \<open>formattedOutput\<close>: a separator line \<open>|----\<close> or a source
  line behind the marker.
\<close>

datatype Chunk = Separator | DefinitionLine string

definition newline :: string where
  "newline = [char_of (10 :: nat)]"

definition lineMarker :: string where
  "lineMarker = [char_of (226 :: nat), char_of (148 :: nat), char_of (130 :: nat)]"

fun renderChunk :: "Chunk \<Rightarrow> string" where
  "renderChunk Separator = ''|----'' @ newline"
| "renderChunk (DefinitionLine l) = lineMarker @ l @ newline"

text \<open>\<open>lines[startLine]\<close> is truthy: the row exists and its line is not empty.\<close>

definition lineAt :: "string list \<Rightarrow> nat \<Rightarrow> bool" where
  "lineAt lines row = (row < length lines \<and> lines ! row \<noteq> [])"

text \<open>The loop over the sorted captures; \<open>lastLine\<close> starts at \<open>-1\<close>.\<close>

fun formatCaptures :: "string list \<Rightarrow> Capture list \<Rightarrow> int \<Rightarrow> Chunk list" where
  "formatCaptures lines [] lastLine = []"
| "formatCaptures lines (c # cs) lastLine =
     (if \<not> str_includes (cap_name c) ''name'' then formatCaptures lines cs lastLine
      else
        (if lastLine \<noteq> -1 \<and> int (cap_startRow c) > lastLine + 1 then [Separator] else [])
        @ (if lineAt lines (cap_startRow c)
           then DefinitionLine (lines ! cap_startRow c)
                # formatCaptures lines cs (int (cap_endRow c))
           else formatCaptures lines cs lastLine))"

text \<open>\<open>fileContent.split("\n")\<close>; \<open>cur\<close> is the line being read.\<close>

fun splitLines :: "string \<Rightarrow> string \<Rightarrow> string list" where
  "splitLines cur [] = [cur]"
| "splitLines cur (c # cs) =
     (if [c] = newline then cur # splitLines [] cs else splitLines (cur @ [c]) cs)"

text \<open>
  The body of \<open>parseFile\<close> once the file is read and the captures are there: no
  captures or no output give \<open>null\<close>.
\<close>

definition formatDefinitions :: "string \<Rightarrow> Capture list \<Rightarrow> string option" where
  "formatDefinitions fileContent captures =
     (if captures = [] then None
      else
        (let chunks = formatCaptures (splitLines [] fileContent)
                        (sort_key cap_startRow captures) (-1)
         in if chunks = [] then None
            else Some (''|----'' @ newline @ concat (map renderChunk chunks)
                       @ ''|----'' @ newline)))"

text \<open>
  \<open>parseFile\<close>: \<open>languageParsers\<close> gives, by extension, the captures of a content
  (\<open>None\<close> when parsing or querying throws). Every exception is caught and turned
  into \<open>null\<close>.
\<close>

definition parseFile :: "Host \<Rightarrow> (string \<Rightarrow> (string \<Rightarrow> Capture list option) option) \<Rightarrow> string
    \<Rightarrow> string option" where
  "parseFile h languageParsers file =
     (case languageParsers (drop 1 (toLowerCase (extname h file))) of
        None \<Rightarrow> None
      | Some capturesOf \<Rightarrow>
          (case readFileSync h file of
             None \<Rightarrow> None
           | Some fileContent \<Rightarrow>
               (case capturesOf fileContent of
                  None \<Rightarrow> None
                | Some captures \<Rightarrow> formatDefinitions fileContent captures)))"

section \<open>Specification-side definitions\<close>

text \<open>
  The ids of the nodes reachable from a node, and from the roots of \<open>fileIndex\<close>.
\<close>

fun nodeIds :: "CodeNode \<Rightarrow> string list"
  and nodeIdsOfList :: "CodeNode list \<Rightarrow> string list"
where
  "nodeIds (CodeNode i ty nm tx sl el sc ec fp chs) = i # nodeIdsOfList chs"
| "nodeIdsOfList [] = []"
| "nodeIdsOfList (child # rest) = nodeIds child @ nodeIdsOfList rest"

definition reachableIds :: "CodeIndexer \<Rightarrow> string list" where
  "reachableIds st = concat (map (\<lambda>(file, rootNode). nodeIds rootNode) (fileIndex st))"

text \<open>
  The position resolver as the specification words it: from a node that contains the
  position, go to the first child that contains it, and stop at a node none of whose
  children does.
\<close>

function deepestContaining :: "CodeNode \<Rightarrow> int \<Rightarrow> int \<Rightarrow> CodeNode" where
  "deepestContaining n line column =
     (case find (\<lambda>child. \<not> outsideRange child line column) (children n) of
        None \<Rightarrow> n
      | Some child \<Rightarrow> deepestContaining child line column)"
  by pat_completeness auto
termination
proof (relation "measure (\<lambda>(n, line, column). size n)")
  show "wf (measure (\<lambda>(n :: CodeNode, line :: int, column :: int). size n))"
    by simp
next
  fix n :: CodeNode and line column :: int and child
  assume "find (\<lambda>child. \<not> outsideRange child line column) (children n) = Some child"
  then have mem: "child \<in> set (children n)"
    by (auto simp: find_Some_iff)
  have "c \<in> set chs \<Longrightarrow> size c < Suc (size_list size chs)" for c :: CodeNode and chs
    by (induction chs) auto
  with mem have "size child < size n"
    by (cases n) simp
  then show "((child, line, column), (n, line, column))
      \<in> measure (\<lambda>(n, line, column). size n)"
    by simp
qed

text \<open>
  The digest as the specification words it: the captures whose label contains
  \<open>name\<close> are rendered in order, and a separator stands before a rendered capture
  exactly when its start row exceeds the end row of the rendered capture before it by
  more than one.
\<close>

fun blocksAfter :: "string list \<Rightarrow> Capture \<Rightarrow> Capture list \<Rightarrow> Chunk list" where
  "blocksAfter lines prev [] = []"
| "blocksAfter lines prev (c # cs) =
     (if cap_startRow c > cap_endRow prev + 1 then [Separator] else [])
     @ DefinitionLine (lines ! cap_startRow c) # blocksAfter lines c cs"

definition digestSpec :: "string list \<Rightarrow> Capture list \<Rightarrow> Chunk list" where
  "digestSpec lines caps =
     (case filter (\<lambda>c. str_includes (cap_name c) ''name'') caps of
        [] \<Rightarrow> []
      | c # cs \<Rightarrow> DefinitionLine (lines ! cap_startRow c) # blocksAfter lines c cs)"

section \<open>Example files\<close>

text \<open>
  Three source files with the trees the external parser gives for them, and a fourth
  file, \<open>bad.ts\<close>, on which the parser throws.
\<close>

definition addSource :: string where
  "addSource = ''function add(a, b) { return a + b; }''"

definition addTree :: SyntaxNode where
  "addTree =
     SyntaxNode ''program'' addSource 0 0 0 36 None
       [SyntaxNode ''function_declaration'' addSource 0 0 0 36 (Some ''add'')
          [SyntaxNode ''identifier'' ''add'' 0 9 0 12 None [],
           SyntaxNode ''formal_parameters'' ''(a, b)'' 0 12 0 18 None [],
           SyntaxNode ''statement_block'' ''{ return a + b; }'' 0 19 0 36 None []]]"

definition ifaceSource :: string where
  "ifaceSource = ''interface Bar { x: number }''"

definition ifaceTree :: SyntaxNode where
  "ifaceTree =
     SyntaxNode ''program'' ifaceSource 0 0 0 27 None
       [SyntaxNode ''interface_declaration'' ifaceSource 0 0 0 27 (Some ''Bar'') []]"

definition nestedFunctionSource :: string where
  "nestedFunctionSource = ''function f() {'' @ newline @ ''  return 1;'' @ newline @ ''}''"

definition nestedSource :: string where
  "nestedSource = ''const a = 1;'' @ newline @ newline @ nestedFunctionSource
     @ concat (replicate 6 newline)"

definition nestedTree :: SyntaxNode where
  "nestedTree =
     SyntaxNode ''program'' nestedSource 0 0 10 0 None
       [SyntaxNode ''lexical_declaration'' ''const a = 1;'' 0 0 0 12 None [],
        SyntaxNode ''function_declaration'' nestedFunctionSource 2 0 4 1 (Some ''f'') []]"

definition exampleHost :: Host where
  "exampleHost =
     \<lparr>extname = (\<lambda>file. CHR ''.'' # rev (takeWhile (\<lambda>c. c \<noteq> CHR ''.'') (rev file))),
      readFileSync = map_of [(''add.ts'', addSource), (''iface.ts'', ifaceSource),
                             (''nested.ts'', nestedSource), (''bad.ts'', ''function add('')]\<rparr>"

definition exampleParsers :: LanguageParser where
  "exampleParsers =
     (\<lambda>ext. if ext = ''ts''
            then Some (map_of [(addSource, addTree), (ifaceSource, ifaceTree),
                               (nestedSource, nestedTree)])
            else None)"

text \<open>The host after \<open>iface.ts\<close> was overwritten with text the parser throws on.\<close>

definition brokenHost :: Host where
  "brokenHost = exampleHost\<lparr>readFileSync := (\<lambda>file. Some ''interface {'')\<rparr>"

text \<open>The host after \<open>iface.ts\<close> was deleted: reading it throws.\<close>

definition deletedHost :: Host where
  "deletedHost = exampleHost\<lparr>readFileSync := (\<lambda>file. None)\<rparr>"

definition addIndexer :: CodeIndexer where
  "addIndexer = snd (initialize exampleHost [''add.ts''] (Some exampleParsers) newCodeIndexer)"

definition ifaceIndexer :: CodeIndexer where
  "ifaceIndexer =
     snd (initialize exampleHost [''iface.ts''] (Some exampleParsers) newCodeIndexer)"

definition nestedIndexer :: CodeIndexer where
  "nestedIndexer =
     snd (initialize exampleHost [''nested.ts''] (Some exampleParsers) newCodeIndexer)"

text \<open>
  The indexer of \<open>iface.ts\<close> after \<open>initialize\<close> ran again on a workspace without
  source files, for which no parser is loaded.
\<close>

definition reinitializedIndexer :: CodeIndexer where
  "reinitializedIndexer = snd (initialize exampleHost [] (Some (\<lambda>ext. None)) ifaceIndexer)"

definition nestedRoot :: CodeNode where
  "nestedRoot = convertToCodeNode nestedTree ''nested.ts'' nestedSource"

definition nestedFunction :: CodeNode where
  "nestedFunction =
     CodeNode ''nested.ts:2:0'' ''function_declaration'' (Some ''f'') nestedFunctionSource
       2 4 0 1 ''nested.ts'' []"

text \<open>Two nodes that differ in their name only.\<close>

definition addNode :: CodeNode where
  "addNode = CodeNode ''add.ts:0:0'' ''function_declaration'' (Some ''add'') addSource
     0 0 0 36 ''add.ts'' []"

definition sumNode :: CodeNode where
  "sumNode = CodeNode ''sum.ts:0:0'' ''function_declaration'' (Some ''sum'') addSource
     0 0 0 36 ''sum.ts'' []"

text \<open>
  A file with two definitions and five blank lines between them, one with two
  definitions on adjacent lines, and the captures of the query for each.
\<close>

definition farSource :: string where
  "farSource = ''function a() {}'' @ concat (replicate 6 newline) @ ''function b() {}''"

definition farCaptures :: "Capture list" where
  "farCaptures =
     [\<lparr>cap_name = ''definition.function'', cap_startRow = 0, cap_endRow = 0\<rparr>,
      \<lparr>cap_name = ''name.definition.function'', cap_startRow = 0, cap_endRow = 0\<rparr>,
      \<lparr>cap_name = ''definition.function'', cap_startRow = 6, cap_endRow = 6\<rparr>,
      \<lparr>cap_name = ''name.definition.function'', cap_startRow = 6, cap_endRow = 6\<rparr>]"

definition nearSource :: string where
  "nearSource = ''function a() {}'' @ newline @ ''function b() {}''"

definition nearCaptures :: "Capture list" where
  "nearCaptures =
     [\<lparr>cap_name = ''definition.function'', cap_startRow = 0, cap_endRow = 0\<rparr>,
      \<lparr>cap_name = ''name.definition.function'', cap_startRow = 0, cap_endRow = 0\<rparr>,
      \<lparr>cap_name = ''definition.function'', cap_startRow = 1, cap_endRow = 1\<rparr>,
      \<lparr>cap_name = ''name.definition.function'', cap_startRow = 1, cap_endRow = 1\<rparr>]"

section \<open>Properties of the scoring\<close>

text \<open>
  C2. For every node and every list of matched terms, \<open>calculateScore\<close> is the number
  of matched terms, times 2 when the node's kind is a function declaration, a method
  definition or a class declaration, times 1.5 when the node spans between 3 and 30
  lines inclusive, times 3 when the node has a (non-empty) name and some matched term
  is a substring of the lowercased name. The three factors are independent, so of two
  nodes of the same kind and line count scored on the same non-empty terms, the one
  with a name match scores at least (in fact exactly) 3 times the one without.
\<close>

theorem calculateScore_boosts:
  "calculateScore n ts =
     real (length ts)
     * (if type n = ''function_declaration'' \<or> type n = ''method_definition''
           \<or> type n = ''class_declaration'' then 2 else 1)
     * (if 3 \<le> endLine n - startLine n + 1 \<and> endLine n - startLine n + 1 \<le> 30
        then 1.5 else 1)
     * (if \<exists>nm. name n = Some nm \<and> nm \<noteq> []
              \<and> (\<exists>t \<in> set ts. str_includes (toLowerCase nm) t) then 3 else 1)
   \<and> (ts \<noteq> [] \<longrightarrow> type a = type b
        \<longrightarrow> endLine a - startLine a = endLine b - startLine b
        \<longrightarrow> matchesName a ts \<longrightarrow> \<not> matchesName b ts
        \<longrightarrow> calculateScore a ts = 3 * calculateScore b ts
            \<and> calculateScore a ts \<ge> 3 * calculateScore b ts
            \<and> calculateScore b ts > 0)"
proof -
  have nm: "matchesName m ts \<longleftrightarrow>
      (\<exists>nm. name m = Some nm \<and> nm \<noteq> [] \<and> (\<exists>t \<in> set ts. str_includes (toLowerCase nm) t))"
    for m
    by (cases "name m") (auto simp: matchesName_def list_ex_iff)
  have formula: "calculateScore m ts =
     real (length ts)
     * (if type m = ''function_declaration'' \<or> type m = ''method_definition''
           \<or> type m = ''class_declaration'' then 2 else 1)
     * (if 3 \<le> endLine m - startLine m + 1 \<and> endLine m - startLine m + 1 \<le> 30
        then 1.5 else 1)
     * (if matchesName m ts then 3 else 1)" for m
    by (simp add: calculateScore_def Let_def)
  have pos: "ts \<noteq> [] \<Longrightarrow> calculateScore m ts > 0" for m
    by (simp add: formula)
  have "type a = type b \<Longrightarrow> endLine a - startLine a = endLine b - startLine b
      \<Longrightarrow> matchesName a ts \<Longrightarrow> \<not> matchesName b ts
      \<Longrightarrow> calculateScore a ts = 3 * calculateScore b ts"
    by (simp add: formula)
  with pos [of b] formula [of n] nm [of n] show ?thesis
    by simp
qed

theorem calculateScore_boosts_witness:
  "[''add''] \<noteq> [] \<and> type addNode = type sumNode
   \<and> endLine addNode - startLine addNode = endLine sumNode - startLine sumNode
   \<and> matchesName addNode [''add''] \<and> \<not> matchesName sumNode [''add'']
   \<and> calculateScore addNode [''add''] = 6 \<and> calculateScore sumNode [''add''] = 2
   \<and> calculateScore addNode [''add''] \<ge> 3 * calculateScore sumNode [''add'']"
proof -
  have ty: "type addNode = type sumNode"
    and ln: "endLine addNode - startLine addNode = endLine sumNode - startLine sumNode"
    by (simp_all add: addNode_def sumNode_def)
  have m1: "matchesName addNode [''add'']" by code_simp
  have m2: "\<not> matchesName sumNode [''add'']" by code_simp
  have v: "calculateScore sumNode [''add''] = 2" by code_simp
  have ne: "[''add''] \<noteq> []" by simp
  from calculateScore_boosts
    [where n = addNode and ts = "[''add'']" and a = addNode and b = sumNode]
  have "calculateScore addNode [''add''] = 3 * calculateScore sumNode [''add'']
      \<and> calculateScore addNode [''add''] \<ge> 3 * calculateScore sumNode [''add'']"
    using ne ty ln m1 m2 by blast
  with ty ln m1 m2 v show ?thesis by simp
qed

section \<open>Properties of the position resolver\<close>

lemma size_child_less: "c \<in> set (children n) \<Longrightarrow> size c < size n"
proof (cases n)
  case (CodeNode i ty nm tx sl el sc ec fp chs)
  have "c \<in> set chs \<Longrightarrow> size c < Suc (size_list size chs)"
    by (induction chs) auto
  with CodeNode show "c \<in> set (children n) \<Longrightarrow> size c < size n"
    by simp
qed

declare deepestContaining.simps [simp del]

lemma findNodeAtPosition_refines:
  "findNodeAtPosition n line column =
     (if outsideRange n line column then None else Some (deepestContaining n line column))"
  "findInChildren chs line column =
     (case find (\<lambda>child. \<not> outsideRange child line column) chs of
        None \<Rightarrow> None
      | Some child \<Rightarrow> Some (deepestContaining child line column))"
proof (induction n line column and chs line column
    rule: findNodeAtPosition_findInChildren.induct)
  case (1 i ty nm tx sl el sc ec fp chs line column)
  then show ?case
    by (simp add: deepestContaining.simps [of "CodeNode i ty nm tx sl el sc ec fp chs"]
             split: option.splits)
next
  case (2 line column)
  then show ?case by simp
next
  case (3 child rest line column)
  then show ?case by (simp split: option.splits)
qed

lemma deepestContaining_contains:
  "\<not> outsideRange n line column \<Longrightarrow>
     \<not> outsideRange (deepestContaining n line column) line column
     \<and> (\<forall>c \<in> set (children (deepestContaining n line column)). outsideRange c line column)"
proof (induction n line column rule: deepestContaining.induct)
  case (1 n line column)
  show ?case
  proof (cases "find (\<lambda>child. \<not> outsideRange child line column) (children n)")
    case None
    then have "deepestContaining n line column = n"
      by (simp add: deepestContaining.simps [of n])
    moreover from None have "\<forall>c \<in> set (children n). outsideRange c line column"
      by (auto simp: find_None_iff)
    ultimately show ?thesis
      using 1 by simp
  next
    case (Some child)
    then have "\<not> outsideRange child line column"
      by (auto simp: find_Some_iff)
    with 1 Some show ?thesis
      by (simp add: deepestContaining.simps [of n])
  qed
qed

lemma size_deepestContaining: "size (deepestContaining n line column) \<le> size n"
proof (induction n line column rule: deepestContaining.induct)
  case (1 n line column)
  show ?case
  proof (cases "find (\<lambda>child. \<not> outsideRange child line column) (children n)")
    case None
    then show ?thesis by (simp add: deepestContaining.simps [of n])
  next
    case (Some child)
    then have "child \<in> set (children n)"
      by (auto simp: find_Some_iff)
    then have "size child < size n"
      by (rule size_child_less)
    with 1 Some show ?thesis
      by (simp add: deepestContaining.simps [of n])
  qed
qed

lemma deepestContaining_descends:
  assumes "\<exists>c \<in> set (children n). \<not> outsideRange c line column"
  shows "deepestContaining n line column \<noteq> n"
proof -
  from assms obtain child where
    f: "find (\<lambda>child. \<not> outsideRange child line column) (children n) = Some child"
    by (cases "find (\<lambda>child. \<not> outsideRange child line column) (children n)")
       (auto simp: find_None_iff)
  then have "child \<in> set (children n)"
    by (auto simp: find_Some_iff)
  then have "size child < size n"
    by (rule size_child_less)
  moreover have "size (deepestContaining child line column) \<le> size child"
    by (rule size_deepestContaining)
  moreover have "deepestContaining n line column = deepestContaining child line column"
    using f by (simp add: deepestContaining.simps [of n])
  ultimately show ?thesis by auto
qed

text \<open>
  C3. \<open>getNodeAtPosition\<close> returns null when the file has no indexed root or when the
  position lies outside the root's range (before the start row, on the start row
  before the start column, after the end row, or on the end row after the end
  column); otherwise it returns the node reached from the root by going, as long as
  some child contains the position, to the first such child. The node returned
  contains the position and none of its children does, and it is not the root when a
  child of the root contains the position.
\<close>

theorem getNodeAtPosition_deepest:
  "getNodeAtPosition st path line column =
     (case map_of (fileIndex st) path of
        None \<Rightarrow> None
      | Some r \<Rightarrow>
          if line < startLine r \<or> (line = startLine r \<and> column < startCol r)
             \<or> line > endLine r \<or> (line = endLine r \<and> column > endCol r)
          then None
          else Some (deepestContaining r line column))
   \<and> (getNodeAtPosition st path line column = Some found \<longrightarrow>
        \<not> outsideRange found line column
        \<and> (\<forall>c \<in> set (children found). outsideRange c line column))
   \<and> (map_of (fileIndex st) path = Some rootNode
        \<longrightarrow> (\<exists>c \<in> set (children rootNode). \<not> outsideRange c line column)
        \<longrightarrow> getNodeAtPosition st path line column \<noteq> Some rootNode)"
proof (intro conjI impI)
  show eq: "getNodeAtPosition st path line column =
     (case map_of (fileIndex st) path of
        None \<Rightarrow> None
      | Some r \<Rightarrow>
          if line < startLine r \<or> (line = startLine r \<and> column < startCol r)
             \<or> line > endLine r \<or> (line = endLine r \<and> column > endCol r)
          then None
          else Some (deepestContaining r line column))"
    by (simp add: getNodeAtPosition_def findNodeAtPosition_refines outsideRange_def
             split: option.splits)
  {
    assume found: "getNodeAtPosition st path line column = Some found"
    then obtain r where r: "map_of (fileIndex st) path = Some r"
      and inside: "\<not> outsideRange r line column"
      and res: "found = deepestContaining r line column"
      by (auto simp: getNodeAtPosition_def findNodeAtPosition_refines
               split: option.splits if_splits)
    from deepestContaining_contains [OF inside] res
    show "\<not> outsideRange found line column" by simp
    from deepestContaining_contains [OF inside] res
    show "\<forall>c \<in> set (children found). outsideRange c line column" by simp
  }
  {
    assume r: "map_of (fileIndex st) path = Some rootNode"
      and child: "\<exists>c \<in> set (children rootNode). \<not> outsideRange c line column"
    from child have "deepestContaining rootNode line column \<noteq> rootNode"
      by (rule deepestContaining_descends)
    with r show "getNodeAtPosition st path line column \<noteq> Some rootNode"
      by (simp add: getNodeAtPosition_def findNodeAtPosition_refines)
  }
qed

theorem getNodeAtPosition_deepest_witness:
  "map_of (fileIndex nestedIndexer) ''nested.ts'' = Some nestedRoot
   \<and> startLine nestedRoot = 0 \<and> endLine nestedRoot = 10
   \<and> nestedFunction \<in> set (children nestedRoot)
   \<and> startLine nestedFunction = 2 \<and> endLine nestedFunction = 4
   \<and> getNodeAtPosition nestedIndexer ''nested.ts'' 3 0 = Some nestedFunction
   \<and> \<not> outsideRange nestedFunction 3 0
   \<and> getNodeAtPosition nestedIndexer ''nested.ts'' 3 0 \<noteq> Some nestedRoot
   \<and> getNodeAtPosition nestedIndexer ''nested.ts'' 11 0 = None"
proof -
  have root: "map_of (fileIndex nestedIndexer) ''nested.ts'' = Some nestedRoot"
    by code_simp
  have rows: "startLine nestedRoot = 0 \<and> endLine nestedRoot = 10
      \<and> startLine nestedFunction = 2 \<and> endLine nestedFunction = 4"
    by code_simp
  have mem: "nestedFunction \<in> set (children nestedRoot)"
    by code_simp
  have inside: "\<not> outsideRange nestedFunction 3 0"
    by code_simp
  have found: "getNodeAtPosition nestedIndexer ''nested.ts'' 3 0 = Some nestedFunction"
    by code_simp
  have out: "getNodeAtPosition nestedIndexer ''nested.ts'' 11 0 = None"
    by code_simp
  from mem inside
  have child: "\<exists>c \<in> set (children nestedRoot). \<not> outsideRange c 3 0"
    by blast
  note inst = getNodeAtPosition_deepest
    [where st = nestedIndexer and path = "''nested.ts''" and line = 3 and column = 0
       and found = nestedFunction and rootNode = nestedRoot]
  from inst found have "\<not> outsideRange nestedFunction 3 0" by blast
  moreover from inst root child
  have "getNodeAtPosition nestedIndexer ''nested.ts'' 3 0 \<noteq> Some nestedRoot" by blast
  ultimately show ?thesis
    using root rows mem found out by blast
qed

section \<open>Properties of the lookups\<close>

lemma map_of_removeNodeFromIndex:
  "map_of (removeNodeFromIndex n idx) k =
     (if k \<in> set (nodeIds n) then None else map_of idx k)"
  "map_of (removeNodesFromIndex chs idx) k =
     (if k \<in> set (nodeIdsOfList chs) then None else map_of idx k)"
  by (induction n idx and chs idx rule: removeNodeFromIndex_removeNodesFromIndex.induct)
     (auto simp: delete_conv')

text \<open>
  C8. For a node id that is not a key of \<open>nodeIndex\<close>, \<open>getNodeText\<close> and
  \<open>getNodePosition\<close> return null, and so they do for every id of a tree whose nodes
  were removed from the index; for a file that is not a key of \<open>fileIndex\<close>,
  \<open>getNodeAtPosition\<close> returns null. The three lookups have no throwing branch.
\<close>

theorem lookups_absent_null:
  "(map_of (nodeIndex st) nodeId = None \<longrightarrow>
      getNodeText st nodeId = None \<and> getNodePosition st nodeId = None)
   \<and> (map_of (fileIndex st) path = None \<longrightarrow> getNodeAtPosition st path line column = None)
   \<and> (removedId \<in> set (nodeIds oldRootNode) \<longrightarrow>
        getNodeText (st\<lparr>nodeIndex := removeNodeFromIndex oldRootNode (nodeIndex st)\<rparr>)
          removedId = None
        \<and> getNodePosition (st\<lparr>nodeIndex := removeNodeFromIndex oldRootNode (nodeIndex st)\<rparr>)
            removedId = None)"
  by (simp add: getNodeText_def getNodePosition_def getNodeAtPosition_def
        map_of_removeNodeFromIndex)

theorem lookups_absent_null_witness:
  "map_of (nodeIndex nestedIndexer) ''nested.ts:7:0'' = None
   \<and> getNodeText nestedIndexer ''nested.ts:7:0'' = None
   \<and> getNodePosition nestedIndexer ''nested.ts:7:0'' = None
   \<and> map_of (fileIndex nestedIndexer) ''add.ts'' = None
   \<and> getNodeAtPosition nestedIndexer ''add.ts'' 0 0 = None
   \<and> ''nested.ts:2:0'' \<in> set (nodeIds nestedRoot)
   \<and> getNodeText nestedIndexer ''nested.ts:2:0'' = Some nestedFunctionSource
   \<and> getNodeText
        (nestedIndexer\<lparr>nodeIndex := removeNodeFromIndex nestedRoot (nodeIndex nestedIndexer)\<rparr>)
        ''nested.ts:2:0'' = None"
proof -
  have a: "map_of (nodeIndex nestedIndexer) ''nested.ts:7:0'' = None" by code_simp
  have b: "map_of (fileIndex nestedIndexer) ''add.ts'' = None" by code_simp
  have c: "''nested.ts:2:0'' \<in> set (nodeIds nestedRoot)" by code_simp
  have d: "getNodeText nestedIndexer ''nested.ts:2:0'' = Some nestedFunctionSource"
    by code_simp
  note inst = lookups_absent_null
    [where st = nestedIndexer and nodeId = "''nested.ts:7:0''" and path = "''add.ts''"
       and line = 0 and column = 0 and removedId = "''nested.ts:2:0''"
       and oldRootNode = nestedRoot]
  from inst a b c d show ?thesis by blast
qed

section \<open>Properties of the ranking\<close>

lemma sortByScore_sorted: "sorted (map (\<lambda>r. - score r) (sortByScore rs))"
  by (simp add: sortByScore_def)

lemma sortByScore_adjacent:
  assumes "Suc i < length (sortByScore rs)"
  shows "score (sortByScore rs ! Suc i) \<le> score (sortByScore rs ! i)"
proof -
  have "sorted (map (\<lambda>r. - score r) (sortByScore rs))"
    by (rule sortByScore_sorted)
  then have "map (\<lambda>r. - score r) (sortByScore rs) ! i
      \<le> map (\<lambda>r. - score r) (sortByScore rs) ! Suc i"
    using assms by (intro sorted_nth_mono) simp_all
  with assms show ?thesis by simp
qed

lemma filter_eq_appendD:
  "filter P xs = ys @ zs \<Longrightarrow> \<exists>us vs. xs = us @ vs \<and> filter P us = ys \<and> filter P vs = zs"
proof (induction ys arbitrary: xs)
  case Nil
  then have "xs = [] @ xs \<and> filter P [] = [] \<and> filter P xs = zs" by simp
  then show ?case by blast
next
  case (Cons y ys)
  then have "filter P xs = y # (ys @ zs)" by simp
  then obtain us0 vs0 where xs: "xs = us0 @ y # vs0" and no: "\<forall>u\<in>set us0. \<not> P u"
    and y: "P y" and rest: "ys @ zs = filter P vs0"
    by (auto dest: filter_eq_ConsD)
  from Cons.IH [OF rest [symmetric]] obtain us1 vs1 where
    vs0: "vs0 = us1 @ vs1" and us1: "filter P us1 = ys" and vs1: "filter P vs1 = zs"
    by blast
  from no have "filter P us0 = []" by (simp add: filter_empty_conv)
  with xs vs0 us1 y have "xs = (us0 @ y # us1) @ vs1 \<and> filter P (us0 @ y # us1) = y # ys"
    by simp
  with vs1 show ?case by blast
qed

lemma sortByScore_ties:
  assumes i: "Suc i < length (sortByScore rs)"
    and eq: "score (sortByScore rs ! i) = score (sortByScore rs ! Suc i)"
  shows "\<exists>ps ms qs. rs = ps @ (sortByScore rs ! i) # ms @ (sortByScore rs ! Suc i) # qs"
proof -
  let ?out = "sortByScore rs"
  let ?x = "?out ! i" and ?y = "?out ! Suc i"
  let ?P = "\<lambda>r. - score r = - score ?x"
  have out: "?out = take i ?out @ ?x # ?y # drop (Suc (Suc i)) ?out"
    using i by (metis Cons_nth_drop_Suc Suc_lessD append_take_drop_id)
  have "filter ?P rs = filter ?P ?out"
    unfolding sortByScore_def by (rule sort_key_stable [symmetric])
  also have "\<dots> = filter ?P (take i ?out @ ?x # ?y # drop (Suc (Suc i)) ?out)"
    using out by simp
  also have "\<dots> = filter ?P (take i ?out) @ ?x # ?y # filter ?P (drop (Suc (Suc i)) ?out)"
    using eq by simp
  finally have "filter ?P rs
      = filter ?P (take i ?out) @ ?x # ?y # filter ?P (drop (Suc (Suc i)) ?out)" .
  then obtain us vs where rs: "rs = us @ vs"
    and vs: "filter ?P vs = ?x # ?y # filter ?P (drop (Suc (Suc i)) ?out)"
    by (auto dest: filter_eq_appendD)
  from filter_eq_ConsD [OF vs] obtain as bs where vs': "vs = as @ ?x # bs"
    and bs: "?y # filter ?P (drop (Suc (Suc i)) ?out) = filter ?P bs"
    by blast
  from filter_eq_ConsD [OF bs [symmetric]] obtain cs ds where "bs = cs @ ?y # ds"
    by blast
  with rs vs' have "rs = (us @ as) @ ?x # cs @ ?y # ds" by simp
  then show ?thesis by blast
qed

text \<open>
  C9. The results of \<open>search\<close> are sorted by descending score and ties keep the order
  of encounter: of two adjacent results the first scores at least as much as the
  second, and when they score the same the first stands before the second in the
  sequence of candidates as the three loops pushed them. The results of each score
  are the candidates of that score, in the same order.
\<close>

theorem search_sorted_stable:
  "(\<forall>i. Suc i < length (search st q) \<longrightarrow>
        score (search st q ! i) \<ge> score (search st q ! Suc i)
        \<and> (score (search st q ! i) = score (search st q ! Suc i) \<longrightarrow>
             (\<exists>ps ms qs. searchCandidates st q
                = ps @ (search st q ! i) # ms @ (search st q ! Suc i) # qs)))
   \<and> (\<forall>k. filter (\<lambda>r. score r = k) (search st q)
           = filter (\<lambda>r. score r = k) (searchCandidates st q))"
proof (intro conjI allI impI)
  fix i
  assume "Suc i < length (search st q)"
  then show "score (search st q ! Suc i) \<le> score (search st q ! i)"
    unfolding search_def by (rule sortByScore_adjacent)
next
  fix i
  assume "Suc i < length (search st q)"
    and "score (search st q ! i) = score (search st q ! Suc i)"
  then show "\<exists>ps ms qs. searchCandidates st q
      = ps @ (search st q ! i) # ms @ (search st q ! Suc i) # qs"
    unfolding search_def by (rule sortByScore_ties)
next
  fix k
  have "filter (\<lambda>r. - score r = - k) (sort_key (\<lambda>r. - score r) (searchCandidates st q))
      = filter (\<lambda>r. - score r = - k) (searchCandidates st q)"
    by (rule sort_key_stable)
  then show "filter (\<lambda>r. score r = k) (search st q)
      = filter (\<lambda>r. score r = k) (searchCandidates st q)"
    by (simp add: search_def sortByScore_def)
qed

theorem search_sorted_stable_witness:
  "map score (searchCandidates addIndexer ''a'') = [12, 2, 2, 2]
   \<and> map (node_id \<circ> node) (searchCandidates addIndexer ''a'')
       = [''add.ts:0:0'', ''add.ts:0:9'', ''add.ts:0:12'', ''add.ts:0:19'']
   \<and> map (node_id \<circ> node) (search addIndexer ''a'')
       = [''add.ts:0:0'', ''add.ts:0:9'', ''add.ts:0:12'', ''add.ts:0:19'']
   \<and> Suc 1 < length (search addIndexer ''a'')
   \<and> score (search addIndexer ''a'' ! 1) = score (search addIndexer ''a'' ! Suc 1)
   \<and> (\<exists>ps ms qs. searchCandidates addIndexer ''a''
         = ps @ (search addIndexer ''a'' ! 1) # ms @ (search addIndexer ''a'' ! Suc 1) # qs)"
proof -
  have a: "map score (searchCandidates addIndexer ''a'') = [12, 2, 2, 2]"
    by code_simp
  have b: "map (node_id \<circ> node) (searchCandidates addIndexer ''a'')
      = [''add.ts:0:0'', ''add.ts:0:9'', ''add.ts:0:12'', ''add.ts:0:19'']"
    by code_simp
  have c: "map (node_id \<circ> node) (search addIndexer ''a'')
      = [''add.ts:0:0'', ''add.ts:0:9'', ''add.ts:0:12'', ''add.ts:0:19'']"
    by code_simp
  have len: "Suc 1 < length (search addIndexer ''a'')"
    by code_simp
  have tie: "score (search addIndexer ''a'' ! 1) = score (search addIndexer ''a'' ! Suc 1)"
    by code_simp
  from search_sorted_stable [where st = addIndexer and q = "''a''"] len tie
  have "\<exists>ps ms qs. searchCandidates addIndexer ''a''
      = ps @ (search addIndexer ''a'' ! 1) # ms @ (search addIndexer ''a'' ! Suc 1) # qs"
    by blast
  with a b c len tie show ?thesis by blast
qed

section \<open>Properties of the definition digest\<close>

lemma formatCaptures_lines:
  "filter (\<lambda>ch. ch \<noteq> Separator) (formatCaptures lines caps lastLine) =
     map (\<lambda>c. DefinitionLine (lines ! cap_startRow c))
       (filter (\<lambda>c. str_includes (cap_name c) ''name'' \<and> lineAt lines (cap_startRow c)) caps)"
  by (induction caps arbitrary: lastLine) auto

lemma formatCaptures_after:
  assumes "\<forall>c \<in> set caps. str_includes (cap_name c) ''name'' \<longrightarrow> lineAt lines (cap_startRow c)"
  shows "formatCaptures lines caps (int (cap_endRow prev)) =
     blocksAfter lines prev (filter (\<lambda>c. str_includes (cap_name c) ''name'') caps)"
  using assms
proof (induction caps arbitrary: prev)
  case Nil
  then show ?case by simp
next
  case (Cons c cs)
  show ?case
  proof (cases "str_includes (cap_name c) ''name''")
    case False
    with Cons show ?thesis by simp
  next
    case True
    with Cons.prems have "lineAt lines (cap_startRow c)" by simp
    moreover have "formatCaptures lines cs (int (cap_endRow c)) =
        blocksAfter lines c (filter (\<lambda>c. str_includes (cap_name c) ''name'') cs)"
      using Cons.prems by (intro Cons.IH) simp
    ultimately show ?thesis using True by auto
  qed
qed

lemma formatCaptures_first:
  assumes "\<forall>c \<in> set caps. str_includes (cap_name c) ''name'' \<longrightarrow> lineAt lines (cap_startRow c)"
  shows "formatCaptures lines caps (- 1) = digestSpec lines caps"
  using assms
proof (induction caps)
  case Nil
  then show ?case by (simp add: digestSpec_def)
next
  case (Cons c cs)
  show ?case
  proof (cases "str_includes (cap_name c) ''name''")
    case False
    with Cons show ?thesis by (simp add: digestSpec_def)
  next
    case True
    with Cons.prems have "lineAt lines (cap_startRow c)" by simp
    moreover have "formatCaptures lines cs (int (cap_endRow c)) =
        blocksAfter lines c (filter (\<lambda>c. str_includes (cap_name c) ''name'') cs)"
      using Cons.prems by (intro formatCaptures_after) simp
    ultimately show ?thesis using True by (simp add: digestSpec_def)
  qed
qed

text \<open>
  C7. In the definition digest only captures whose label contains \<open>name\<close> produce an
  output line. When the row of every such capture holds a non-empty line of the file
  (the capture's node lies on it), every such capture is rendered, and a separator is
  emitted between two consecutive rendered captures exactly when the start row of the
  current one exceeds the end row of the previous one by more than one: one separator
  for two definitions five blank lines apart, none for a gap of at most one line.
\<close>

theorem formatCaptures_separators:
  "filter (\<lambda>ch. ch \<noteq> Separator) (formatCaptures lines caps lastLine) =
     map (\<lambda>c. DefinitionLine (lines ! cap_startRow c))
       (filter (\<lambda>c. str_includes (cap_name c) ''name'' \<and> lineAt lines (cap_startRow c)) caps)
   \<and> ((\<forall>c \<in> set caps. str_includes (cap_name c) ''name'' \<longrightarrow> lineAt lines (cap_startRow c))
        \<longrightarrow> formatCaptures lines caps (- 1) = digestSpec lines caps)
   \<and> (str_includes (cap_name a) ''name'' \<and> lineAt lines (cap_startRow a)
        \<and> str_includes (cap_name b) ''name'' \<and> lineAt lines (cap_startRow b)
        \<longrightarrow> formatCaptures lines [a, b] (- 1) =
              DefinitionLine (lines ! cap_startRow a)
              # (if cap_startRow b > cap_endRow a + 1 then [Separator] else [])
              @ [DefinitionLine (lines ! cap_startRow b)])"
proof (intro conjI impI)
  show "filter (\<lambda>ch. ch \<noteq> Separator) (formatCaptures lines caps lastLine) =
     map (\<lambda>c. DefinitionLine (lines ! cap_startRow c))
       (filter (\<lambda>c. str_includes (cap_name c) ''name'' \<and> lineAt lines (cap_startRow c)) caps)"
    by (rule formatCaptures_lines)
next
  assume "\<forall>c \<in> set caps. str_includes (cap_name c) ''name'' \<longrightarrow> lineAt lines (cap_startRow c)"
  then show "formatCaptures lines caps (- 1) = digestSpec lines caps"
    by (rule formatCaptures_first)
next
  assume "str_includes (cap_name a) ''name'' \<and> lineAt lines (cap_startRow a)
        \<and> str_includes (cap_name b) ''name'' \<and> lineAt lines (cap_startRow b)"
  then show "formatCaptures lines [a, b] (- 1) =
              DefinitionLine (lines ! cap_startRow a)
              # (if cap_startRow b > cap_endRow a + 1 then [Separator] else [])
              @ [DefinitionLine (lines ! cap_startRow b)]"
    by auto
qed

theorem formatCaptures_separators_witness:
  "formatCaptures (splitLines [] farSource) (sort_key cap_startRow farCaptures) (- 1)
       = digestSpec (splitLines [] farSource) (sort_key cap_startRow farCaptures)
   \<and> formatCaptures (splitLines [] farSource) (sort_key cap_startRow farCaptures) (- 1)
       = [DefinitionLine ''function a() {}'', Separator, DefinitionLine ''function b() {}'']
   \<and> formatDefinitions farSource farCaptures
       = Some (''|----'' @ newline @ lineMarker @ ''function a() {}'' @ newline
               @ ''|----'' @ newline @ lineMarker @ ''function b() {}'' @ newline
               @ ''|----'' @ newline)
   \<and> formatCaptures (splitLines [] nearSource) (sort_key cap_startRow nearCaptures) (- 1)
       = [DefinitionLine ''function a() {}'', DefinitionLine ''function b() {}'']
   \<and> str_includes (cap_name (farCaptures ! 1)) ''name''
   \<and> lineAt (splitLines [] farSource) (cap_startRow (farCaptures ! 1))
   \<and> str_includes (cap_name (farCaptures ! 3)) ''name''
   \<and> lineAt (splitLines [] farSource) (cap_startRow (farCaptures ! 3))
   \<and> cap_startRow (farCaptures ! 3) = cap_endRow (farCaptures ! 1) + 6
   \<and> formatCaptures (splitLines [] farSource) [farCaptures ! 1, farCaptures ! 3] (- 1)
       = [DefinitionLine ''function a() {}'', Separator, DefinitionLine ''function b() {}'']"
proof -
  have two: "str_includes (cap_name (farCaptures ! 1)) ''name''
      \<and> lineAt (splitLines [] farSource) (cap_startRow (farCaptures ! 1))
      \<and> str_includes (cap_name (farCaptures ! 3)) ''name''
      \<and> lineAt (splitLines [] farSource) (cap_startRow (farCaptures ! 3))"
    by code_simp
  have gap: "cap_startRow (farCaptures ! 3) = cap_endRow (farCaptures ! 1) + 6"
    by code_simp
  have rows: "splitLines [] farSource ! cap_startRow (farCaptures ! 1) = ''function a() {}''
      \<and> splitLines [] farSource ! cap_startRow (farCaptures ! 3) = ''function b() {}''"
    by code_simp
  from formatCaptures_separators
    [where lines = "splitLines [] farSource" and a = "farCaptures ! 1" and b = "farCaptures ! 3"]
    two
  have "formatCaptures (splitLines [] farSource) [farCaptures ! 1, farCaptures ! 3] (- 1) =
      DefinitionLine (splitLines [] farSource ! cap_startRow (farCaptures ! 1))
      # (if cap_startRow (farCaptures ! 3) > cap_endRow (farCaptures ! 1) + 1
         then [Separator] else [])
      @ [DefinitionLine (splitLines [] farSource ! cap_startRow (farCaptures ! 3))]"
    by blast
  with gap rows
  have pair: "formatCaptures (splitLines [] farSource) [farCaptures ! 1, farCaptures ! 3] (- 1)
      = [DefinitionLine ''function a() {}'', Separator, DefinitionLine ''function b() {}'']"
    by simp
  have h: "\<forall>c \<in> set (sort_key cap_startRow farCaptures).
      str_includes (cap_name c) ''name'' \<longrightarrow> lineAt (splitLines [] farSource) (cap_startRow c)"
    by code_simp
  have far: "formatCaptures (splitLines [] farSource) (sort_key cap_startRow farCaptures) (- 1)
      = [DefinitionLine ''function a() {}'', Separator, DefinitionLine ''function b() {}'']"
    by code_simp
  have whole: "formatDefinitions farSource farCaptures
      = Some (''|----'' @ newline @ lineMarker @ ''function a() {}'' @ newline
              @ ''|----'' @ newline @ lineMarker @ ''function b() {}'' @ newline
              @ ''|----'' @ newline)"
    by code_simp
  have near: "formatCaptures (splitLines [] nearSource) (sort_key cap_startRow nearCaptures) (- 1)
      = [DefinitionLine ''function a() {}'', DefinitionLine ''function b() {}'']"
    by code_simp
  from formatCaptures_separators
    [where lines = "splitLines [] farSource" and caps = "sort_key cap_startRow farCaptures"] h
  have "formatCaptures (splitLines [] farSource) (sort_key cap_startRow farCaptures) (- 1)
      = digestSpec (splitLines [] farSource) (sort_key cap_startRow farCaptures)"
    by blast
  with far whole near two gap pair show ?thesis by blast
qed

section \<open>Properties of bulk indexing\<close>

lemma indexFile_parsers: "parsers (snd (indexFile h f st)) = parsers st"
  by (auto simp: indexFile_def Let_def split: option.splits)

lemma indexFiles_parsers: "parsers (snd (indexFiles h files st)) = parsers st"
proof (induction files arbitrary: st)
  case Nil
  then show ?case by simp
next
  case (Cons f rest)
  obtain r st' where r: "indexFile h f st = (r, st')"
    by (cases "indexFile h f st")
  then have "parsers st' = parsers st"
    using indexFile_parsers [of h f st] by simp
  with r Cons show ?case by (cases r) simp_all
qed

lemma indexFiles_append:
  "indexFiles h pre st = (None, st1) \<Longrightarrow>
     indexFiles h (pre @ rest) st = indexFiles h rest st1"
proof (induction pre arbitrary: st)
  case Nil
  then show ?case by simp
next
  case (Cons f pre)
  obtain r st' where r: "indexFile h f st = (r, st')"
    by (cases "indexFile h f st")
  with Cons.prems have "r = None" by (cases r) simp_all
  with r Cons show ?case by simp
qed

lemma indexFile_parse_failure:
  "parsers st = Some ps \<Longrightarrow> ps (drop 1 (toLowerCase (extname h f))) = Some parser \<Longrightarrow>
     readFileSync h f = Some content \<Longrightarrow> parser content = None \<Longrightarrow>
     indexFile h f st = (Some IndexingFailed, st)"
  by (simp add: indexFile_def Let_def)

text \<open>
  C4, counterexample. The claim says that a file on which the parser throws is
  skipped and that the remaining files are indexed. With the files \<open>bad.ts\<close> and
  \<open>add.ts\<close>, in this order, \<open>initialize\<close> ends with the error of \<open>bad.ts\<close> and has
  indexed nothing, although \<open>add.ts\<close> alone is indexed without error.
\<close>

theorem initialize_counterexample:
  "fst (initialize exampleHost [''bad.ts'', ''add.ts''] (Some exampleParsers) newCodeIndexer)
     = Some IndexingFailed
   \<and> map fst (fileIndex (snd (initialize exampleHost [''bad.ts'', ''add.ts'']
                                (Some exampleParsers) newCodeIndexer))) = []
   \<and> fst (initialize exampleHost [''add.ts''] (Some exampleParsers) newCodeIndexer) = None
   \<and> map fst (fileIndex (snd (initialize exampleHost [''add.ts'']
                                (Some exampleParsers) newCodeIndexer))) = [''add.ts'']"
  by code_simp

text \<open>
  C4, as amended. When the parser throws on one file of \<open>initialize\<close>'s run, the
  failing call leaves both indexes as they were, so the file is not indexed and
  nothing of it is stored, and the files before it stay indexed; but the error is
  thrown again, the run ends there and no later file is indexed. Only \<open>parseFile\<close> of
  the definition digest catches the failure and returns null for that file alone.
\<close>

theorem initialize_parse_failure_stops:
  assumes "initialize h pre (Some ps) st0 = (None, st1)"
    and "ps (drop 1 (toLowerCase (extname h failing))) = Some parser"
    and "readFileSync h failing = Some content"
    and "parser content = None"
  shows "indexFile h failing st1 = (Some IndexingFailed, st1)
    \<and> initialize h (pre @ failing # post) (Some ps) st0 = (Some IndexingFailed, st1)
    \<and> (languageParsers (drop 1 (toLowerCase (extname h failing))) = Some capturesOf
         \<longrightarrow> capturesOf content = None
         \<longrightarrow> parseFile h languageParsers failing = None)"
proof -
  from assms(1) have pre: "indexFiles h pre (st0\<lparr>parsers := Some ps\<rparr>) = (None, st1)"
    by (simp add: initialize_def)
  then have "parsers st1 = Some ps"
    using indexFiles_parsers [of h pre "st0\<lparr>parsers := Some ps\<rparr>"] by simp
  then have one: "indexFile h failing st1 = (Some IndexingFailed, st1)"
    using assms(2-4) by (rule indexFile_parse_failure)
  then have "indexFiles h (failing # post) st1 = (Some IndexingFailed, st1)"
    by simp
  with indexFiles_append [OF pre, of "failing # post"]
  have run: "initialize h (pre @ failing # post) (Some ps) st0 = (Some IndexingFailed, st1)"
    by (simp add: initialize_def)
  have "languageParsers (drop 1 (toLowerCase (extname h failing))) = Some capturesOf
      \<Longrightarrow> capturesOf content = None \<Longrightarrow> parseFile h languageParsers failing = None"
    using assms(3) by (simp add: parseFile_def)
  with one run show ?thesis by blast
qed

theorem initialize_parse_failure_stops_witness:
  "initialize exampleHost [''add.ts''] (Some exampleParsers) newCodeIndexer
     = (None, addIndexer)
   \<and> readFileSync exampleHost ''bad.ts'' = Some ''function add(''
   \<and> fst (initialize exampleHost ([''add.ts''] @ ''bad.ts'' # [''iface.ts''])
            (Some exampleParsers) newCodeIndexer) = Some IndexingFailed
   \<and> snd (initialize exampleHost ([''add.ts''] @ ''bad.ts'' # [''iface.ts''])
            (Some exampleParsers) newCodeIndexer) = addIndexer
   \<and> map fst (fileIndex addIndexer) = [''add.ts'']
   \<and> parseFile exampleHost (\<lambda>ext. Some (\<lambda>content. None)) ''bad.ts'' = None"
proof -
  let ?parser = "map_of [(addSource, addTree), (ifaceSource, ifaceTree),
      (nestedSource, nestedTree)]"
  have "fst (initialize exampleHost [''add.ts''] (Some exampleParsers) newCodeIndexer) = None"
    by code_simp
  then have pre: "initialize exampleHost [''add.ts''] (Some exampleParsers) newCodeIndexer
      = (None, addIndexer)"
    by (simp add: addIndexer_def prod_eq_iff)
  have ext: "drop 1 (toLowerCase (extname exampleHost ''bad.ts'')) = ''ts''"
    by code_simp
  have p: "exampleParsers (drop 1 (toLowerCase (extname exampleHost ''bad.ts''))) = Some ?parser"
    unfolding ext by (simp add: exampleParsers_def)
  have r: "readFileSync exampleHost ''bad.ts'' = Some ''function add(''"
    by code_simp
  have t: "?parser ''function add('' = None"
    by code_simp
  have files: "map fst (fileIndex addIndexer) = [''add.ts'']"
    by code_simp
  have lp: "(\<lambda>ext. Some (\<lambda>content. None))
      (drop 1 (toLowerCase (extname exampleHost ''bad.ts'')))
      = Some (\<lambda>content :: string. (None :: Capture list option))"
    by simp
  from initialize_parse_failure_stops [OF pre p r t,
      where post = "[''iface.ts'']"
        and languageParsers = "\<lambda>ext. Some (\<lambda>content. None)"
        and capturesOf = "\<lambda>content. None"] lp
  have "initialize exampleHost ([''add.ts''] @ ''bad.ts'' # [''iface.ts''])
        (Some exampleParsers) newCodeIndexer = (Some IndexingFailed, addIndexer)
      \<and> parseFile exampleHost (\<lambda>ext. Some (\<lambda>content. None)) ''bad.ts'' = None"
    by blast
  with pre r files show ?thesis by simp
qed

section \<open>Properties of the length threshold\<close>

lemma singlePass_long:
  "r \<in> set (singlePass terms ns acc) \<Longrightarrow> r \<in> set acc \<or> 10 \<le> length (node_text (node r))"
proof (induction ns arbitrary: acc)
  case Nil
  then show ?case by simp
next
  case (Cons n ns)
  let ?m = "filter (\<lambda>term. str_includes (toLowerCase (node_text n)) term) terms"
  let ?new = "\<lparr>node = n, score = calculateScore n ?m, matches = ?m\<rparr>"
  have "singlePass terms (n # ns) acc = singlePass terms ns acc
      \<or> (\<not> length (node_text n) < 10
          \<and> singlePass terms (n # ns) acc = singlePass terms ns (acc @ [?new]))"
    by (simp add: Let_def)
  then show ?case
  proof (elim disjE conjE)
    assume "singlePass terms (n # ns) acc = singlePass terms ns acc"
    with Cons show ?thesis by simp
  next
    assume long: "\<not> length (node_text n) < 10"
      and "singlePass terms (n # ns) acc = singlePass terms ns (acc @ [?new])"
    with Cons.prems have "r \<in> set (singlePass terms ns (acc @ [?new]))" by simp
    then have "r \<in> set (acc @ [?new]) \<or> 10 \<le> length (node_text (node r))"
      by (rule Cons.IH)
    with long show ?thesis by auto
  qed
qed

text \<open>
  C5, counterexample. The claim says that \<open>search\<close> never returns a node whose text
  is shorter than 10 characters. The three-loop \<open>search\<close> of \<open>src/codeIndexer.ts\<close>
  has no length test: for the query \<open>add\<close> it returns the identifier node whose text
  is \<open>add\<close>.
\<close>

theorem search_short_text_counterexample:
  "map (node_text \<circ> node) (search addIndexer ''add'') = [addSource, ''add'']
   \<and> length (node_text (node (search addIndexer ''add'' ! 1))) = 3"
  by code_simp

text \<open>
  C5, as amended. The single-loop \<open>search\<close> kept beside the three-loop one skips
  every node whose text is shorter than 10 characters: for every query, none of its
  results has a text shorter than 10 characters.
\<close>

theorem searchSinglePass_min_length:
  "\<forall>r \<in> set (searchSinglePass st q). 10 \<le> length (node_text (node r))"
  using singlePass_long [of _ _ _ "[]"]
  by (auto simp: searchSinglePass_def sortByScore_def)

theorem searchSinglePass_min_length_witness:
  "map (node_text \<circ> node) (searchSinglePass addIndexer ''add'') = [addSource]
   \<and> hd (searchSinglePass addIndexer ''add'') \<in> set (searchSinglePass addIndexer ''add'')
   \<and> 10 \<le> length (node_text (node (hd (searchSinglePass addIndexer ''add''))))"
proof -
  have res: "map (node_text \<circ> node) (searchSinglePass addIndexer ''add'') = [addSource]"
    by code_simp
  then have "searchSinglePass addIndexer ''add'' \<noteq> []"
    by auto
  then have mem: "hd (searchSinglePass addIndexer ''add'')
      \<in> set (searchSinglePass addIndexer ''add'')"
    by simp
  with searchSinglePass_min_length [where st = addIndexer and q = "''add''"]
  have "10 \<le> length (node_text (node (hd (searchSinglePass addIndexer ''add''))))"
    by blast
  with res mem show ?thesis by blast
qed

section \<open>Where the code departs from its specification\<close>

lemma keys_indexNode:
  "fst ` set (indexNode n idx) = fst ` set idx \<union> set (nodeIds n)"
  "fst ` set (indexNodes chs idx) = fst ` set idx \<union> set (nodeIdsOfList chs)"
  by (induction n idx and chs idx rule: indexNode_indexNodes.induct)
     (auto simp: dom_update)

lemma keys_removeNodeFromIndex:
  "fst ` set (removeNodeFromIndex n idx) = fst ` set idx - set (nodeIds n)"
proof -
  have "dom (map_of (removeNodeFromIndex n idx)) = dom (map_of idx) - set (nodeIds n)"
    by (auto simp: dom_def map_of_removeNodeFromIndex)
  then show ?thesis
    by (simp add: dom_map_of_conv_image_fst)
qed

lemma indexFile_success:
  assumes "parsers st = Some ps"
    and "ps (drop 1 (toLowerCase (extname h f))) = Some parser"
    and "readFileSync h f = Some content"
    and "parser content = Some tree"
  shows "indexFile h f st =
    (None, st\<lparr>fileIndex := AList.update f (convertToCodeNode tree f content) (fileIndex st),
              nodeIndex := indexNode (convertToCodeNode tree f content) (nodeIndex st)\<rparr>)"
  using assms by (simp add: indexFile_def Let_def)

text \<open>
  When both calls succeed, \<open>indexFile\<close> followed by \<open>updateFile\<close> on a fresh index
  leaves exactly the ids of the second materialization in \<open>nodeIndex\<close>.
\<close>

lemma indexFile_then_updateFile_keys:
  assumes ps: "parsers st = Some ps"
    and fresh: "nodeIndex st = []"
    and p1: "ps (drop 1 (toLowerCase (extname h1 f))) = Some parser"
    and r1: "readFileSync h1 f = Some content1"
    and t1: "parser content1 = Some tree1"
    and e2: "extname h2 f = extname h1 f"
    and r2: "readFileSync h2 f = Some content2"
    and t2: "parser content2 = Some tree2"
  shows "fst (updateFile h2 f (snd (indexFile h1 f st))) = None
    \<and> fst ` set (nodeIndex (snd (updateFile h2 f (snd (indexFile h1 f st)))))
        = set (nodeIds (convertToCodeNode tree2 f content2))"
proof -
  let ?root1 = "convertToCodeNode tree1 f content1"
  let ?root2 = "convertToCodeNode tree2 f content2"
  let ?st1 = "st\<lparr>fileIndex := AList.update f ?root1 (fileIndex st),
                  nodeIndex := indexNode ?root1 (nodeIndex st)\<rparr>"
  let ?st1' = "?st1\<lparr>nodeIndex := removeNodeFromIndex ?root1 (nodeIndex ?st1)\<rparr>"
  have one: "indexFile h1 f st = (None, ?st1)"
    using ps p1 r1 t1 by (rule indexFile_success)
  have old: "map_of (fileIndex ?st1) f = Some ?root1"
    by (simp add: update_conv')
  have p2: "ps (drop 1 (toLowerCase (extname h2 f))) = Some parser"
    using p1 e2 by simp
  have "parsers ?st1' = Some ps"
    using ps by simp
  from indexFile_success [OF this p2 r2 t2]
  have two: "updateFile h2 f ?st1 =
      (None, ?st1'\<lparr>fileIndex := AList.update f ?root2 (fileIndex ?st1'),
                    nodeIndex := indexNode ?root2 (nodeIndex ?st1')\<rparr>)"
    using old by (simp add: updateFile_def)
  have "fst ` set (nodeIndex ?st1') = {}"
    using fresh by (simp add: keys_removeNodeFromIndex keys_indexNode)
  then have "fst ` set (indexNode ?root2 (nodeIndex ?st1')) = set (nodeIds ?root2)"
    by (simp add: keys_indexNode)
  with one two show ?thesis by simp
qed

text \<open>
  C1. The keys of \<open>nodeIndex\<close> are to be the ids reachable from the roots in
  \<open>fileIndex\<close> after every sequence of calls, an \<open>updateFile\<close> whose parse fails or
  whose extension has no parser included. \<open>updateFile\<close> removes the old nodes from
  \<open>nodeIndex\<close> before it calls \<open>indexFile\<close> and never removes the old root from
  \<open>fileIndex\<close>: when \<open>indexFile\<close> then throws (the parser fails, the file cannot be
  read) or returns early (no parser), the root stays in \<open>fileIndex\<close> and none of its
  ids is left in \<open>nodeIndex\<close>.
\<close>

theorem updateFile_failed_reparse_stale_root:
  "map fst (nodeIndex ifaceIndexer) = [''iface.ts:0:0'']
   \<and> set (reachableIds ifaceIndexer) = {''iface.ts:0:0''}
   \<and> fst (updateFile brokenHost ''iface.ts'' ifaceIndexer) = Some IndexingFailed
   \<and> map fst (fileIndex (snd (updateFile brokenHost ''iface.ts'' ifaceIndexer)))
       = [''iface.ts'']
   \<and> map fst (nodeIndex (snd (updateFile brokenHost ''iface.ts'' ifaceIndexer))) = []
   \<and> set (reachableIds (snd (updateFile brokenHost ''iface.ts'' ifaceIndexer)))
       = {''iface.ts:0:0''}
   \<and> fst (updateFile deletedHost ''iface.ts'' ifaceIndexer) = Some IndexingFailed
   \<and> map fst (nodeIndex (snd (updateFile deletedHost ''iface.ts'' ifaceIndexer))) = []
   \<and> set (reachableIds (snd (updateFile deletedHost ''iface.ts'' ifaceIndexer)))
       = {''iface.ts:0:0''}
   \<and> fst (updateFile exampleHost ''iface.ts'' reinitializedIndexer) = None
   \<and> map fst (nodeIndex (snd (updateFile exampleHost ''iface.ts'' reinitializedIndexer))) = []
   \<and> set (reachableIds (snd (updateFile exampleHost ''iface.ts'' reinitializedIndexer)))
       = {''iface.ts:0:0''}"
  by code_simp

text \<open>
  C6. Empty terms are to be discarded, so that a blank query matches no node. The
  code trims the query and splits it without dropping empty pieces: a blank query
  gives the one term \<open>""\<close>, which every text includes, and every indexed node is
  returned.
\<close>

theorem search_blank_query_matches_all:
  "splitWhiteSpace [] (trim (toLowerCase ''   '')) = [[]]
   \<and> map (node_id \<circ> node) (search addIndexer ''   '')
       = [''add.ts:0:0'', ''add.ts:0:9'', ''add.ts:0:12'', ''add.ts:0:19'']
   \<and> map (node_id \<circ> node) (search addIndexer [])
       = [''add.ts:0:0'', ''add.ts:0:9'', ''add.ts:0:12'', ''add.ts:0:19'']
   \<and> map matches (search addIndexer ''   '') = [[[]], [[]], [[]], [[]]]"
  by code_simp


end
